theory Spec2Isabelle
  imports Main
begin

section \<open>The Lottery contract (contracts/Lottery.sol)\<close>

text \<open>
  The contract is embedded function by function. Values of type \<open>uint256\<close> and
  \<open>address\<close> are natural numbers: the contract never adds or multiplies, its only
  subtraction is checked (Solidity 0.8 panics on underflow, which the model writes out),
  and \<open>%\<close> and \<open><\<close> agree with the ones on \<open>nat\<close>. The ether held by the
  contract, \<open>address(this).balance\<close>, is the field \<open>balance\<close> of the state.
\<close>

type_synonym address = nat

datatype LotteryState = OPEN | CALCULATING

text \<open>
  The custom errors of the contract, the panics of the compiler's checks, and the error
  of a called contract that a high-level call passes on, with the data it carries.
\<close>

datatype error =
    Lottery__NotEnoughETHEntered
  | Lottery__TransferFailed
  | Lottery__NotOpen
  | Lottery__UpkeepNotNeeded nat nat nat
  | Panic nat
  | Propagated string

definition PANIC_ARITHMETIC :: nat where
  "PANIC_ARITHMETIC = 0x11"

definition PANIC_DIVISION_BY_ZERO :: nat where
  "PANIC_DIVISION_BY_ZERO = 0x12"

definition PANIC_INDEX_OUT_OF_BOUNDS :: nat where
  "PANIC_INDEX_OUT_OF_BOUNDS = 0x32"

text \<open>Storage and immutables of the contract, with the ether it holds.\<close>

record lottery =
  i_entranceFee :: nat
  s_players :: "address list"
  i_vrfCoordinator :: address
  i_gasLane :: nat
  i_subscriptionId :: nat
  i_callbackGasLimit :: nat
  s_recentWinner :: address
  s_lotteryState :: LotteryState
  s_lastTimestamp :: nat
  i_interval :: nat
  balance :: nat

definition REQUEST_CONFIRMATIONS :: nat where
  "REQUEST_CONFIRMATIONS = 3"

definition NUM_WORDS :: nat where
  "NUM_WORDS = 1"

text \<open>
  What a call does to the outside world, in order: the events it emits and the two
  external calls the contract makes (the request to the VRF coordinator with its five
  arguments, and the payment of a value to an address).
\<close>

datatype event =
    LotteryEnter address
  | RequestLotteryWinner nat
  | WinnerPicked address

datatype effect =
    Emit event
  | RequestRandomWords address nat nat nat nat nat
  | CallValue address nat

text \<open>
  A function body runs on the storage and ends by returning or by reverting. The model
  keeps the storage as the body left it in both cases, together with the effects so far;
  what a revert does to them is \<open>transact\<close> below.
\<close>

type_synonym 'a exec = "(error + 'a) \<times> lottery \<times> effect list"

text \<open>
  An external call of a function of the contract: when the body reverts, storage and
  balance are the ones from before the call and no event or external call remains.
\<close>

definition transact :: "lottery \<Rightarrow> 'a exec \<Rightarrow> 'a exec" where
  "transact pre r =
     (case fst r of
        Inl e \<Rightarrow> (Inl e, pre, [])
      | Inr v \<Rightarrow> r)"

text \<open>\<open>uint256(s_lotteryState)\<close>: the position of the enum value.\<close>

fun uint256_of_LotteryState :: "LotteryState \<Rightarrow> nat" where
  "uint256_of_LotteryState OPEN = 0"
| "uint256_of_LotteryState CALCULATING = 1"

text \<open>
  The constructor, run at time \<open>block_timestamp\<close>. The subscription identifier is cast
  to \<open>uint64\<close>; the player list is empty, the recent winner is the zero address, and
  the constructor is not payable.
\<close>

definition constructor_Lottery ::
    "nat \<Rightarrow> address \<Rightarrow> nat \<Rightarrow> nat \<Rightarrow> nat \<Rightarrow> nat \<Rightarrow> nat \<Rightarrow> lottery" where
  "constructor_Lottery block_timestamp vrfCoordinatorV2 entranceFee gasLane
       subscriptionId callbackGasLimit interval =
     \<lparr> i_entranceFee = entranceFee,
       s_players = [],
       i_vrfCoordinator = vrfCoordinatorV2,
       i_gasLane = gasLane,
       i_subscriptionId = subscriptionId mod 2 ^ 64,
       i_callbackGasLimit = callbackGasLimit,
       s_recentWinner = 0,
       s_lotteryState = OPEN,
       s_lastTimestamp = block_timestamp,
       i_interval = interval,
       balance = 0 \<rparr>"

text \<open>
  \<open>enterLottery\<close> is payable: the value sent is part of the balance while the body
  runs. The payment is checked first, the state second.
\<close>

definition enterLottery :: "address \<Rightarrow> nat \<Rightarrow> lottery \<Rightarrow> unit exec" where
  "enterLottery msg_sender msg_value s0 =
     (let s = s0\<lparr>balance := balance s0 + msg_value\<rparr> in
      if msg_value < i_entranceFee s then (Inl Lottery__NotEnoughETHEntered, s, [])
      else if s_lotteryState s \<noteq> OPEN then (Inl Lottery__NotOpen, s, [])
      else (Inr (), s\<lparr>s_players := s_players s @ [msg_sender]\<rparr>,
            [Emit (LotteryEnter msg_sender)]))"

text \<open>
  \<open>checkUpkeep\<close> is a view: it answers or panics. The subtraction
  \<open>block.timestamp - s_lastTimestamp\<close> is checked.
\<close>

definition checkUpkeep :: "nat \<Rightarrow> lottery \<Rightarrow> error + bool" where
  "checkUpkeep block_timestamp s =
     (let isOpen = (OPEN = s_lotteryState s) in
      if block_timestamp < s_lastTimestamp s then Inl (Panic PANIC_ARITHMETIC)
      else
        let timePassed = (block_timestamp - s_lastTimestamp s > i_interval s);
            hasPlayers = (length (s_players s) > 0);
            hasBalance = (balance s > 0)
        in Inr (isOpen \<and> timePassed \<and> hasPlayers \<and> hasBalance))"

subsection \<open>External calls\<close>

text \<open>
  The contract hands control to code outside it twice: \<open>performUpkeep\<close> calls the
  VRF coordinator and \<open>fulfillRandomWords\<close> pays the winner with a low-level call.
  That code either fails, with some data, and everything it did is undone, or returns
  after a sequence of actions on this contract. An action is one of the three calls the
  contract accepts, each with what the code it calls will do in turn, or ether pushed
  into the contract without running it (\<open>selfdestruct\<close>). The same actions are what
  accounts do to the contract from outside.
\<close>

datatype callee =
    Fails string
  | Returns "action list"
and action =
    Forced nat
  | EnterLottery address nat
  | PerformUpkeep callee nat
  | FulfillRandomWords callee nat "nat list"

text \<open>
  \<open>performUpkeep\<close>: \<open>coordinator\<close> is what the coordinator's code does when asked,
  \<open>requestId\<close> the identifier it returns if it returns. The state is written before
  the call; a failure of the coordinator is passed on and reverts the whole call. The
  identifier goes into the event and nowhere else.

  \<open>fulfillRandomWords\<close>: \<open>winner_code\<close> is what the code at the winner's address
  does when paid. The request identifier is a parameter the body never reads (its name
  is commented out in the source). Reading \<open>_randomWords[0]\<close> of an empty array and
  taking \<open>%\<close> by zero panic, in this order. The recent winner is stored before the
  payment; the payment takes the whole balance out; state, players and timestamp are
  reset after the winner's code has run, and the balance is never written. The function
  is internal: it is reached through \<open>rawFulfillRandomWords\<close> of the inherited
  \<open>VRFConsumerBaseV2\<close>, a library contract that only lets the coordinator through.

  \<open>act\<close> is one action at block time \<open>block_timestamp\<close>: a call that reverts
  leaves no trace. All calls made inside one transaction see the same block time.
\<close>

fun performUpkeep :: "nat \<Rightarrow> callee \<Rightarrow> nat \<Rightarrow> lottery \<Rightarrow> unit exec"
  and fulfillRandomWords :: "nat \<Rightarrow> callee \<Rightarrow> nat \<Rightarrow> nat list \<Rightarrow> lottery \<Rightarrow> unit exec"
  and act :: "nat \<Rightarrow> action \<Rightarrow> lottery \<Rightarrow> lottery \<times> effect list"
  and act_all :: "nat \<Rightarrow> action list \<Rightarrow> lottery \<Rightarrow> lottery \<times> effect list"
where
  "performUpkeep block_timestamp coordinator requestId s =
     (case checkUpkeep block_timestamp s of
        Inl e \<Rightarrow> (Inl e, s, [])
      | Inr upkeepNedded \<Rightarrow>
          if \<not> upkeepNedded then
            (Inl (Lottery__UpkeepNotNeeded (balance s) (length (s_players s))
                    (uint256_of_LotteryState (s_lotteryState s))), s, [])
          else
            let s1 = s\<lparr>s_lotteryState := CALCULATING\<rparr>;
                request = RequestRandomWords (i_vrfCoordinator s1) (i_gasLane s1)
                   (i_subscriptionId s1) REQUEST_CONFIRMATIONS (i_callbackGasLimit s1)
                   NUM_WORDS
            in case coordinator of
                 Fails d \<Rightarrow> (Inl (Propagated d), s1, [request])
               | Returns actions \<Rightarrow>
                   (case act_all block_timestamp actions s1 of
                      (s2, during) \<Rightarrow>
                        (Inr (), s2,
                         request # during @ [Emit (RequestLotteryWinner requestId)])))"
| "fulfillRandomWords block_timestamp winner_code requestId randomWords s =
     (if length randomWords = 0 then (Inl (Panic PANIC_INDEX_OUT_OF_BOUNDS), s, [])
      else if length (s_players s) = 0 then (Inl (Panic PANIC_DIVISION_BY_ZERO), s, [])
      else
        let indexOfWinner = (randomWords ! 0) mod length (s_players s);
            recentWinner = s_players s ! indexOfWinner;
            s1 = s\<lparr>s_recentWinner := recentWinner\<rparr>;
            paid = balance s1
        in case winner_code of
             Fails d \<Rightarrow> (Inl Lottery__TransferFailed, s1, [CallValue recentWinner paid])
           | Returns actions \<Rightarrow>
               (case act_all block_timestamp actions (s1\<lparr>balance := balance s1 - paid\<rparr>) of
                  (s2, during) \<Rightarrow>
                    (Inr (),
                     s2\<lparr>s_lotteryState := OPEN,
                        s_players := [],
                        s_lastTimestamp := block_timestamp\<rparr>,
                     CallValue recentWinner paid # during @
                       [Emit (WinnerPicked recentWinner)])))"
| "act block_timestamp (Forced v) s = (s\<lparr>balance := balance s + v\<rparr>, [])"
| "act block_timestamp (EnterLottery msg_sender msg_value) s =
     snd (transact s (enterLottery msg_sender msg_value s))"
| "act block_timestamp (PerformUpkeep coordinator requestId) s =
     snd (transact s (performUpkeep block_timestamp coordinator requestId s))"
| "act block_timestamp (FulfillRandomWords winner_code requestId randomWords) s =
     snd (transact s (fulfillRandomWords block_timestamp winner_code requestId randomWords s))"
| "act_all block_timestamp [] s = (s, [])"
| "act_all block_timestamp (a # actions) s =
     (case act block_timestamp a s of
        (s1, first) \<Rightarrow>
          (case act_all block_timestamp actions s1 of
             (s2, rest) \<Rightarrow> (s2, first @ rest)))"


subsection \<open>Sequences of transactions\<close>

text \<open>
  The state of the contract after a sequence of transactions, each an action with the
  time of its block.
\<close>

fun step :: "lottery \<Rightarrow> nat \<times> action \<Rightarrow> lottery" where
  "step s (block_timestamp, a) = fst (act block_timestamp a s)"

definition run :: "lottery \<Rightarrow> (nat \<times> action) list \<Rightarrow> lottery" where
  "run s txs = foldl step s txs"



text \<open>The property of a state that a draw in progress has players.\<close>

definition players_while_calculating :: "lottery \<Rightarrow> bool" where
  "players_while_calculating s \<longleftrightarrow> (s_lotteryState s = CALCULATING \<longrightarrow> s_players s \<noteq> [])"

subsection \<open>A deployment used in the examples\<close>

text \<open>
  Entrance fee 10, interval 30, deployed at time 0; four players enter with the fee
  (\<open>four_entered\<close>); at time 31 the draw is requested and the coordinator answers
  with request 1 (\<open>drawing\<close>); at time 40 the random word 42 arrives and the winner,
  an account without code, is paid (\<open>settled\<close>).
\<close>

definition deployed :: lottery where
  "deployed = constructor_Lottery 0 99 10 5 1 500000 30"

definition four_entered :: lottery where
  "four_entered = run deployed
     [(1, EnterLottery 11 10), (2, EnterLottery 12 10), (3, EnterLottery 13 10),
      (4, EnterLottery 14 10)]"

definition drawing :: lottery where
  "drawing = run four_entered [(31, PerformUpkeep (Returns []) 1)]"

definition settled :: lottery where
  "settled = run drawing [(40, FulfillRandomWords (Returns []) 1 [42])]"

text \<open>The same deployment with 5 wei pushed into it and nobody entered.\<close>

definition funded_no_players :: lottery where
  "funded_no_players = run deployed [(1, Forced 5)]"

text \<open>A fifth player enters with 12, more than the fee.\<close>

definition five_entered :: lottery where
  "five_entered = run four_entered [(5, EnterLottery 15 12)]"




section \<open>Properties\<close>

subsection \<open>The example states\<close>

lemmas panics = PANIC_ARITHMETIC_def PANIC_DIVISION_BY_ZERO_def PANIC_INDEX_OUT_OF_BOUNDS_def

lemma deployed_eq:
  "deployed = \<lparr> i_entranceFee = 10, s_players = [], i_vrfCoordinator = 99, i_gasLane = 5,
      i_subscriptionId = 1, i_callbackGasLimit = 500000, s_recentWinner = 0,
      s_lotteryState = OPEN, s_lastTimestamp = 0, i_interval = 30, balance = 0 \<rparr>"
  by (simp add: deployed_def constructor_Lottery_def)

lemma four_entered_eq:
  "four_entered = \<lparr> i_entranceFee = 10, s_players = [11, 12, 13, 14], i_vrfCoordinator = 99,
      i_gasLane = 5, i_subscriptionId = 1, i_callbackGasLimit = 500000, s_recentWinner = 0,
      s_lotteryState = OPEN, s_lastTimestamp = 0, i_interval = 30, balance = 40 \<rparr>"
  by (simp add: four_entered_def deployed_eq run_def transact_def enterLottery_def)

lemma drawing_eq:
  "drawing = \<lparr> i_entranceFee = 10, s_players = [11, 12, 13, 14], i_vrfCoordinator = 99,
      i_gasLane = 5, i_subscriptionId = 1, i_callbackGasLimit = 500000, s_recentWinner = 0,
      s_lotteryState = CALCULATING, s_lastTimestamp = 0, i_interval = 30, balance = 40 \<rparr>"
  by (simp add: drawing_def four_entered_eq run_def transact_def checkUpkeep_def)

lemma settled_eq:
  "settled = \<lparr> i_entranceFee = 10, s_players = [], i_vrfCoordinator = 99,
      i_gasLane = 5, i_subscriptionId = 1, i_callbackGasLimit = 500000, s_recentWinner = 13,
      s_lotteryState = OPEN, s_lastTimestamp = 40, i_interval = 30, balance = 0 \<rparr>"
  by (simp add: settled_def drawing_eq run_def transact_def)

lemma funded_no_players_eq:
  "funded_no_players = \<lparr> i_entranceFee = 10, s_players = [], i_vrfCoordinator = 99,
      i_gasLane = 5, i_subscriptionId = 1, i_callbackGasLimit = 500000, s_recentWinner = 0,
      s_lotteryState = OPEN, s_lastTimestamp = 0, i_interval = 30, balance = 5 \<rparr>"
  by (simp add: funded_no_players_def deployed_eq run_def)

lemma five_entered_eq:
  "five_entered = \<lparr> i_entranceFee = 10, s_players = [11, 12, 13, 14, 15],
      i_vrfCoordinator = 99, i_gasLane = 5, i_subscriptionId = 1,
      i_callbackGasLimit = 500000, s_recentWinner = 0, s_lotteryState = OPEN,
      s_lastTimestamp = 0, i_interval = 30, balance = 52 \<rparr>"
  by (simp add: five_entered_def four_entered_eq run_def transact_def enterLottery_def)


subsection \<open>Reverting and returning\<close>

lemma transact_reverted: "fst r = Inl e \<Longrightarrow> transact pre r = (Inl e, pre, [])"
  by (simp add: transact_def)

lemma transact_Inr_iff: "transact pre r = (Inr v, s', log) \<longleftrightarrow> r = (Inr v, s', log)"
  by (cases r) (auto simp: transact_def split: sum.splits)

lemma transact_state_cases:
  "fst (snd (transact s r)) = s \<or> fst (snd (transact s r)) = fst (snd r)"
  by (cases r) (simp add: transact_def split: sum.split)


lemma act_all_Cons_state:
  "fst (act_all t (a # as) s) = fst (act_all t as (fst (act t a s)))"
  by (cases "act t a s", cases "act_all t as (fst (act t a s))") simp


subsection \<open>The branches of the three functions\<close>


lemma enterLottery_returned:
  assumes "transact s (enterLottery a v s) = (Inr (), s', log)"
  shows "i_entranceFee s \<le> v" and "s_lotteryState s = OPEN"
    and "s' = s\<lparr>balance := balance s + v, s_players := s_players s @ [a]\<rparr>"
    and "log = [Emit (LotteryEnter a)]"
  using assms
  by (simp_all add: transact_Inr_iff enterLottery_def Let_def split: if_splits)

lemma checkUpkeep_answers:
  "s_lastTimestamp s \<le> t \<Longrightarrow>
   checkUpkeep t s =
     Inr (s_lotteryState s = OPEN \<and> t - s_lastTimestamp s > i_interval s \<and>
          s_players s \<noteq> [] \<and> balance s > 0)"
  by (auto simp: checkUpkeep_def Let_def)

lemma checkUpkeep_panics:
  "t < s_lastTimestamp s \<Longrightarrow> checkUpkeep t s = Inl (Panic PANIC_ARITHMETIC)"
  by (simp add: checkUpkeep_def Let_def)

lemma checkUpkeep_True_iff:
  "checkUpkeep t s = Inr True \<longleftrightarrow>
     s_lotteryState s = OPEN \<and> t > s_lastTimestamp s + i_interval s \<and>
     s_players s \<noteq> [] \<and> balance s > 0"
proof (cases "s_lastTimestamp s \<le> t")
  case True
  then show ?thesis
    by (auto simp: checkUpkeep_answers)
next
  case False
  then show ?thesis
    by (simp add: checkUpkeep_panics)
qed

lemma fulfill_no_words:
  "ws = [] \<Longrightarrow>
   fulfillRandomWords t c rid ws s = (Inl (Panic PANIC_INDEX_OUT_OF_BOUNDS), s, [])"
  by simp

lemma fulfill_no_players:
  "ws \<noteq> [] \<Longrightarrow> s_players s = [] \<Longrightarrow>
   fulfillRandomWords t c rid ws s = (Inl (Panic PANIC_DIVISION_BY_ZERO), s, [])"
  by simp

lemma fulfill_refused:
  "ws \<noteq> [] \<Longrightarrow> s_players s \<noteq> [] \<Longrightarrow>
   fulfillRandomWords t (Fails d) rid ws s =
     (Inl Lottery__TransferFailed,
      s\<lparr>s_recentWinner := s_players s ! (ws ! 0 mod length (s_players s))\<rparr>,
      [CallValue (s_players s ! (ws ! 0 mod length (s_players s))) (balance s)])"
  by (simp add: Let_def)

lemma fulfill_paid:
  "ws \<noteq> [] \<Longrightarrow> s_players s \<noteq> [] \<Longrightarrow>
   fulfillRandomWords t (Returns actions) rid ws s =
     (Inr (),
      (fst (act_all t actions
              (s\<lparr>s_recentWinner := s_players s ! (ws ! 0 mod length (s_players s)),
                 balance := 0\<rparr>)))
        \<lparr>s_lotteryState := OPEN, s_players := [], s_lastTimestamp := t\<rparr>,
      CallValue (s_players s ! (ws ! 0 mod length (s_players s))) (balance s) #
        snd (act_all t actions
              (s\<lparr>s_recentWinner := s_players s ! (ws ! 0 mod length (s_players s)),
                 balance := 0\<rparr>)) @
        [Emit (WinnerPicked (s_players s ! (ws ! 0 mod length (s_players s))))])"
  by (simp add: Let_def split: prod.split)



lemma performUpkeep_coordinator_fails:
  "checkUpkeep t s = Inr True \<Longrightarrow>
   performUpkeep t (Fails d) rid s =
     (Inl (Propagated d), s\<lparr>s_lotteryState := CALCULATING\<rparr>,
      [RequestRandomWords (i_vrfCoordinator s) (i_gasLane s) (i_subscriptionId s)
         REQUEST_CONFIRMATIONS (i_callbackGasLimit s) NUM_WORDS])"
  by (simp add: performUpkeep.simps)

lemma performUpkeep_requested:
  "checkUpkeep t s = Inr True \<Longrightarrow>
   performUpkeep t (Returns actions) rid s =
     (Inr (), fst (act_all t actions (s\<lparr>s_lotteryState := CALCULATING\<rparr>)),
      RequestRandomWords (i_vrfCoordinator s) (i_gasLane s) (i_subscriptionId s)
         REQUEST_CONFIRMATIONS (i_callbackGasLimit s) NUM_WORDS #
      snd (act_all t actions (s\<lparr>s_lotteryState := CALCULATING\<rparr>)) @
      [Emit (RequestLotteryWinner rid)])"
  by (simp add: performUpkeep.simps split: prod.split)

declare performUpkeep.simps [simp del] fulfillRandomWords.simps [simp del]


lemma fulfill_division_panic_iff:
  "fst (fulfillRandomWords t c rid ws s) = Inl (Panic PANIC_DIVISION_BY_ZERO) \<longleftrightarrow>
     ws \<noteq> [] \<and> s_players s = []"
proof (cases "ws = []")
  case True
  then show ?thesis
    by (simp add: fulfill_no_words panics)
next
  case False
  show ?thesis
  proof (cases "s_players s = []")
    case True
    with False show ?thesis
      by (simp add: fulfill_no_players)
  next
    case False
    with \<open>ws \<noteq> []\<close> show ?thesis
      by (cases c) (simp_all add: fulfill_refused fulfill_paid)
  qed
qed

subsection \<open>The example calls\<close>







lemma drawing_refused:
  "transact drawing (fulfillRandomWords 40 (Fails ''no'') 1 [42] drawing) =
     (Inl Lottery__TransferFailed, drawing, [])"
  by (simp add: drawing_eq transact_def fulfill_refused)



lemma four_entered_gate: "checkUpkeep 31 four_entered = Inr True"
  by (simp add: four_entered_eq checkUpkeep_def)





lemma four_entered_enter:
  "transact four_entered (enterLottery 15 12 four_entered) =
     (Inr (), five_entered, [Emit (LotteryEnter 15)])"
  by (simp add: five_entered_eq four_entered_eq transact_def enterLottery_def)

lemma settled_reached:
  "settled = run (constructor_Lottery 0 99 10 5 1 500000 30)
     [(1, EnterLottery 11 10), (2, EnterLottery 12 10), (3, EnterLottery 13 10),
      (4, EnterLottery 14 10), (31, PerformUpkeep (Returns []) 1),
      (40, FulfillRandomWords (Returns []) 1 [42])]"
  by (simp add: settled_def drawing_def four_entered_def deployed_def run_def)

lemma drawing_reached:
  "drawing = run (constructor_Lottery 0 99 10 5 1 500000 30)
     [(1, EnterLottery 11 10), (2, EnterLottery 12 10), (3, EnterLottery 13 10),
      (4, EnterLottery 14 10), (31, PerformUpkeep (Returns []) 1)]"
  by (simp add: drawing_def four_entered_def deployed_def run_def)

text \<open>
  Two calls in which random words are delivered while other code is still running: inside
  the payment of a winner, and inside the request to the coordinator. They need a
  coordinator that delivers at such a moment; the contract does not prevent it.
\<close>

lemma delivery_inside_payment:
  "transact drawing
     (fulfillRandomWords 40 (Returns [FulfillRandomWords (Returns []) 1 [43]]) 1 [42]
        drawing) =
     (Inr (), settled\<lparr>s_recentWinner := 14\<rparr>,
      [CallValue 13 40, CallValue 14 0, Emit (WinnerPicked 14), Emit (WinnerPicked 13)])"
  by (simp add: drawing_eq settled_eq transact_def fulfill_paid)

lemma delivery_inside_request:
  "transact four_entered
     (performUpkeep 31 (Returns [FulfillRandomWords (Returns []) 1 [42]]) 1 four_entered) =
     (Inr (), settled\<lparr>s_lastTimestamp := 31\<rparr>,
      [RequestRandomWords 99 5 1 3 500000 1, CallValue 13 40, Emit (WinnerPicked 13),
       Emit (RequestLotteryWinner 1)])"
  by (simp add: four_entered_gate performUpkeep_requested transact_def)
     (simp add: four_entered_eq settled_eq transact_def fulfill_paid
        REQUEST_CONFIRMATIONS_def NUM_WORDS_def)

subsection \<open>Invariants of calls inside calls\<close>

text \<open>
  A draw in progress has players, before and after every call, also the calls made by
  called code.
\<close>

lemma calculating_kept:
  shows performUpkeep_keeps:
      "players_while_calculating s \<Longrightarrow>
       players_while_calculating (fst (snd (performUpkeep t c rid s)))"
    and fulfill_keeps:
      "players_while_calculating s \<Longrightarrow>
       players_while_calculating (fst (snd (fulfillRandomWords t c' rid' ws s)))"
    and act_keeps:
      "players_while_calculating s \<Longrightarrow> players_while_calculating (fst (act t a s))"
    and act_all_keeps:
      "players_while_calculating s \<Longrightarrow> players_while_calculating (fst (act_all t as s))"
proof (induction t c rid s and t c' rid' ws s and t a s and t as s
    rule: performUpkeep_fulfillRandomWords_act_act_all.induct)
  case (1 t c rid s)
  show ?case
  proof (cases "checkUpkeep t s")
    case (Inl e)
    with "1.prems" show ?thesis
      by (simp add: performUpkeep.simps)
  next
    case (Inr needed)
    show ?thesis
    proof (cases needed)
      case False
      with Inr "1.prems" show ?thesis
        by (simp add: performUpkeep.simps)
    next
      case True
      with Inr have "s_players s \<noteq> []"
        by (simp add: checkUpkeep_True_iff)
      then have s1: "players_while_calculating (s\<lparr>s_lotteryState := CALCULATING\<rparr>)"
        by (simp add: players_while_calculating_def)
      show ?thesis
      proof (cases c)
        case (Fails d)
        with Inr True s1 show ?thesis
          by (simp add: performUpkeep_coordinator_fails)
      next
        case (Returns actions)
        from "1.IH" [OF Inr _ refl refl Returns s1] True
        have "players_while_calculating
                (fst (act_all t actions (s\<lparr>s_lotteryState := CALCULATING\<rparr>)))"
          by simp
        with Inr True Returns show ?thesis
          by (simp add: performUpkeep_requested)
      qed
    qed
  qed
next
  case (2 t c rid ws s)
  show ?case
  proof (cases "ws = [] \<or> s_players s = []")
    case True
    with "2.prems" show ?thesis
      by (auto simp: fulfillRandomWords.simps)
  next
    case False
    then have ne: "ws \<noteq> []" "s_players s \<noteq> []"
      by simp_all
    show ?thesis
    proof (cases c)
      case (Fails d)
      with ne "2.prems" show ?thesis
        by (simp add: fulfill_refused players_while_calculating_def)
    next
      case (Returns actions)
      with ne show ?thesis
        by (simp add: fulfill_paid players_while_calculating_def)
    qed
  qed
next
  case (3 t v s)
  then show ?case
    by (simp add: players_while_calculating_def)
next
  case (4 t a v s)
  then show ?case
    by (simp add: players_while_calculating_def enterLottery_def transact_def Let_def)
next
  case (5 t c rid s)
  from transact_state_cases [of s "performUpkeep t c rid s"] "5.IH" [OF "5.prems"] "5.prems"
  show ?case
    by auto
next
  case (6 t c rid ws s)
  from transact_state_cases [of s "fulfillRandomWords t c rid ws s"]
    "6.IH" [OF "6.prems"] "6.prems"
  show ?case
    by auto
next
  case (7 t s)
  then show ?case
    by simp
next
  case (8 t a as s)
  from "8.IH"(1) [OF "8.prems"]
  have "players_while_calculating (fst (act t a s))" .
  from "8.IH"(2) [OF _ this, of "snd (act t a s)"]
  have "players_while_calculating (fst (act_all t as (fst (act t a s))))"
    by simp
  then show ?case
    by (simp only: act_all_Cons_state)
qed

lemma run_keeps:
  "players_while_calculating s \<Longrightarrow> players_while_calculating (run s txs)"
  unfolding run_def
proof (induction txs arbitrary: s)
  case Nil
  then show ?case by simp
next
  case (Cons tx txs)
  obtain t a where tx: "tx = (t, a)"
    by (cases tx)
  from Cons.prems have "players_while_calculating (step s tx)"
    by (simp add: tx act_keeps)
  then have "players_while_calculating (foldl step (step s tx) txs)"
    by (rule Cons.IH)
  then show ?case by simp
qed




section \<open>The claims\<close>

subsection \<open>Winner selection and settlement\<close>






text \<open>
  C3. When the payment to the winner is refused, the call reverts with
  \<open>Lottery__TransferFailed\<close>: storage and balance are the ones before the call (state,
  balance, players, recent winner and last timestamp in particular) and no effect
  remains, although the body had already stored the recent winner.
\<close>

theorem fulfill_payout_failure_reverts:
  assumes "ws \<noteq> []" and "s_players s \<noteq> []"
    and "transact s (fulfillRandomWords t (Fails d) rid ws s) = (r, s', log)"
  shows "r = Inl Lottery__TransferFailed \<and> s' = s \<and> log = [] \<and>
         s_lotteryState s' = s_lotteryState s \<and> balance s' = balance s \<and>
         s_players s' = s_players s \<and> s_recentWinner s' = s_recentWinner s \<and>
         s_lastTimestamp s' = s_lastTimestamp s \<and>
         fulfillRandomWords t (Fails d) rid ws s =
           (Inl Lottery__TransferFailed,
            s\<lparr>s_recentWinner := s_players s ! (ws ! 0 mod length (s_players s))\<rparr>,
            [CallValue (s_players s ! (ws ! 0 mod length (s_players s))) (balance s)])"
proof -
  note body = fulfill_refused [OF assms(1,2), of t d rid]
  then have "fst (fulfillRandomWords t (Fails d) rid ws s) = Inl Lottery__TransferFailed"
    by simp
  then have "transact s (fulfillRandomWords t (Fails d) rid ws s) =
      (Inl Lottery__TransferFailed, s, [])"
    by (rule transact_reverted)
  with assms(3) have "r = Inl Lottery__TransferFailed" "s' = s" "log = []"
    by simp_all
  with body show ?thesis
    by simp
qed

theorem fulfill_payout_failure_reverts_witness:
  "[42::nat] \<noteq> [] \<and> s_players drawing \<noteq> [] \<and>
   transact drawing (fulfillRandomWords 40 (Fails ''no'') 1 [42] drawing) =
     (Inl Lottery__TransferFailed, drawing, []) \<and>
   s_lotteryState drawing = CALCULATING \<and> balance drawing = 40 \<and>
   s_recentWinner drawing = 0 \<and>
   s_recentWinner (fst (snd (fulfillRandomWords 40 (Fails ''no'') 1 [42] drawing))) = 13"
proof -
  have p: "s_players drawing \<noteq> []"
    by (simp add: drawing_eq)
  have w: "[42::nat] \<noteq> []"
    by simp
  from fulfill_payout_failure_reverts [OF w p drawing_refused]
  have "fulfillRandomWords 40 (Fails ''no'') 1 [42] drawing =
           (Inl Lottery__TransferFailed,
            drawing\<lparr>s_recentWinner := s_players drawing ! ([42] ! 0 mod length (s_players drawing))\<rparr>,
            [CallValue (s_players drawing ! ([42] ! 0 mod length (s_players drawing))) (balance drawing)])"
    by simp
  then have "s_recentWinner (fst (snd (fulfillRandomWords 40 (Fails ''no'') 1 [42] drawing))) = 13"
    by (simp add: drawing_eq)
  moreover have "s_lotteryState drawing = CALCULATING \<and> balance drawing = 40 \<and>
      s_recentWinner drawing = 0"
    by (simp add: drawing_eq)
  ultimately show ?thesis
    using p drawing_refused by simp
qed

subsection \<open>The request identifier\<close>




subsection \<open>The upkeep gate\<close>

text \<open>
  C5. \<open>checkUpkeep\<close> answers true exactly when the state is \<open>OPEN\<close>, the time
  since the last timestamp is strictly greater than the interval, there is a player and
  the balance is positive. With no player it never answers true, and it answers false
  whenever the clock is not behind the last timestamp (a clock behind it makes the
  checked subtraction panic; block timestamps never decrease, and the last timestamp is
  always one of them). In full: with the clock not behind, the answer is the conjunction
  of the four conditions; with the clock behind, the call panics.
\<close>

theorem checkUpkeep_iff_four_conditions:
  "(checkUpkeep t s = Inr True \<longleftrightarrow>
      s_lotteryState s = OPEN \<and>
      int t - int (s_lastTimestamp s) > int (i_interval s) \<and>
      s_players s \<noteq> [] \<and>
      balance s > 0) \<and>
   (s_players s = [] \<longrightarrow> checkUpkeep t s \<noteq> Inr True) \<and>
   (s_players s = [] \<and> s_lastTimestamp s \<le> t \<longrightarrow> checkUpkeep t s = Inr False) \<and>
   (s_lastTimestamp s \<le> t \<longrightarrow>
      checkUpkeep t s =
        Inr (s_lotteryState s = OPEN \<and> t - s_lastTimestamp s > i_interval s \<and>
             s_players s \<noteq> [] \<and> balance s > 0)) \<and>
   (t < s_lastTimestamp s \<longrightarrow> checkUpkeep t s = Inl (Panic PANIC_ARITHMETIC))"
proof -
  have "int t - int (s_lastTimestamp s) > int (i_interval s) \<longleftrightarrow>
        t > s_lastTimestamp s + i_interval s"
    by linarith
  then have "checkUpkeep t s = Inr True \<longleftrightarrow>
      s_lotteryState s = OPEN \<and>
      int t - int (s_lastTimestamp s) > int (i_interval s) \<and>
      s_players s \<noteq> [] \<and> balance s > 0"
    by (simp add: checkUpkeep_True_iff)
  moreover have "checkUpkeep t s \<noteq> Inr True" if "s_players s = []"
    using that by (simp add: checkUpkeep_True_iff)
  moreover have "checkUpkeep t s = Inr False" if "s_players s = [] \<and> s_lastTimestamp s \<le> t"
    using that by (simp add: checkUpkeep_answers)
  moreover note checkUpkeep_answers [of s t] checkUpkeep_panics [of t s]
  ultimately show ?thesis
    by blast
qed

theorem checkUpkeep_iff_four_conditions_witness:
  "s_players funded_no_players = [] \<and> s_lastTimestamp funded_no_players \<le> 31 \<and>
   s_lotteryState funded_no_players = OPEN \<and>
   int 31 - int (s_lastTimestamp funded_no_players) > int (i_interval funded_no_players) \<and>
   balance funded_no_players > 0 \<and>
   checkUpkeep 31 funded_no_players = Inr False \<and>
   checkUpkeep 31 four_entered = Inr True \<and>
   checkUpkeep 30 four_entered = Inr False"
proof -
  have e: "s_players funded_no_players = [] \<and> s_lastTimestamp funded_no_players \<le> 31"
    by (simp add: funded_no_players_eq)
  with checkUpkeep_iff_four_conditions [of 31 funded_no_players]
  have "checkUpkeep 31 funded_no_players = Inr False"
    by blast
  moreover from checkUpkeep_iff_four_conditions [of 31 four_entered]
  have "checkUpkeep 31 four_entered = Inr True"
    by (simp add: four_entered_eq)
  moreover from checkUpkeep_iff_four_conditions [of 30 four_entered]
  have "checkUpkeep 30 four_entered = Inr False"
    by (simp add: four_entered_eq)
  moreover have "s_lotteryState funded_no_players = OPEN \<and>
   int 31 - int (s_lastTimestamp funded_no_players) > int (i_interval funded_no_players) \<and>
   balance funded_no_players > 0"
    by (simp add: funded_no_players_eq)
  ultimately show ?thesis
    using e by simp
qed




subsection \<open>Entering\<close>

text \<open>
  C7. In every state, \<open>OPEN\<close> or \<open>CALCULATING\<close>, \<open>enterLottery\<close> with a value
  below the entrance fee reverts with \<open>Lottery__NotEnoughETHEntered\<close> (the payment is
  checked before the state) and changes nothing: players and balance are as before.
\<close>

theorem enterLottery_underpaid:
  assumes "msg_value < i_entranceFee s"
  shows "transact s (enterLottery msg_sender msg_value s) =
           (Inl Lottery__NotEnoughETHEntered, s, []) \<and>
         fst (enterLottery msg_sender msg_value s) = Inl Lottery__NotEnoughETHEntered"
  using assms by (simp add: enterLottery_def transact_def Let_def)

theorem enterLottery_underpaid_witness:
  "(9::nat) < i_entranceFee drawing \<and> s_lotteryState drawing = CALCULATING \<and>
   transact drawing (enterLottery 15 9 drawing) =
     (Inl Lottery__NotEnoughETHEntered, drawing, []) \<and>
   (9::nat) < i_entranceFee four_entered \<and> s_lotteryState four_entered = OPEN \<and>
   transact four_entered (enterLottery 15 9 four_entered) =
     (Inl Lottery__NotEnoughETHEntered, four_entered, [])"
proof -
  have a: "(9::nat) < i_entranceFee drawing" and b: "(9::nat) < i_entranceFee four_entered"
    by (simp_all add: drawing_eq four_entered_eq)
  have "s_lotteryState drawing = CALCULATING \<and> s_lotteryState four_entered = OPEN"
    by (simp add: drawing_eq four_entered_eq)
  with enterLottery_underpaid [OF a, of 15] enterLottery_underpaid [OF b, of 15] a b
  show ?thesis
    by simp
qed

subsection \<open>Players while calculating\<close>

text \<open>
  C8, as stated, does not hold: \<open>fulfillRandomWords\<close> does not check the state, and
  in reachable states with no player it takes the remainder by zero: on the fresh
  deployment, and right after a settlement.
\<close>

theorem calculating_has_players_counterexample:
  "deployed = run (constructor_Lottery 0 99 10 5 1 500000 30) [] \<and>
   transact deployed (fulfillRandomWords 40 (Returns []) 1 [42] deployed) =
     (Inl (Panic PANIC_DIVISION_BY_ZERO), deployed, []) \<and>
   settled = run (constructor_Lottery 0 99 10 5 1 500000 30)
     [(1, EnterLottery 11 10), (2, EnterLottery 12 10), (3, EnterLottery 13 10),
      (4, EnterLottery 14 10), (31, PerformUpkeep (Returns []) 1),
      (40, FulfillRandomWords (Returns []) 1 [42])] \<and>
   transact settled (fulfillRandomWords 41 (Returns []) 1 [42] settled) =
     (Inl (Panic PANIC_DIVISION_BY_ZERO), settled, [])"
proof -
  have "deployed = run (constructor_Lottery 0 99 10 5 1 500000 30) []"
    by (simp add: deployed_def run_def)
  moreover have "transact deployed (fulfillRandomWords 40 (Returns []) 1 [42] deployed) =
     (Inl (Panic PANIC_DIVISION_BY_ZERO), deployed, [])"
    by (simp add: deployed_eq fulfill_no_players transact_def)
  moreover have "transact settled (fulfillRandomWords 41 (Returns []) 1 [42] settled) =
     (Inl (Panic PANIC_DIVISION_BY_ZERO), settled, [])"
    by (simp add: settled_eq fulfill_no_players transact_def)
  ultimately show ?thesis
    using settled_reached by simp
qed

text \<open>
  C8, amended. In every state reached from the constructor by transactions (entering,
  requesting, delivering, pushing ether, with any arguments and any called code), the
  state \<open>CALCULATING\<close> implies a non-empty player list, so random words delivered in
  that state never take the remainder by zero. In a reachable state the remainder is
  taken by zero exactly when random words are delivered with no player, which is only
  possible in state \<open>OPEN\<close>.
\<close>

theorem calculating_has_players:
  assumes "s = run (constructor_Lottery t0 vrf fee lane sub lim iv) txs"
  shows "(s_lotteryState s = CALCULATING \<longrightarrow>
            s_players s \<noteq> [] \<and>
            (\<forall>t c rid ws. fst (fulfillRandomWords t c rid ws s) \<noteq>
                             Inl (Panic PANIC_DIVISION_BY_ZERO))) \<and>
         (\<forall>t c rid ws.
            fst (fulfillRandomWords t c rid ws s) = Inl (Panic PANIC_DIVISION_BY_ZERO) \<longleftrightarrow>
              ws \<noteq> [] \<and> s_players s = [] \<and> s_lotteryState s = OPEN)"
proof -
  have "players_while_calculating (constructor_Lottery t0 vrf fee lane sub lim iv)"
    by (simp add: players_while_calculating_def constructor_Lottery_def)
  then have "players_while_calculating s"
    unfolding assms by (rule run_keeps)
  then have inv: "s_lotteryState s = CALCULATING \<longrightarrow> s_players s \<noteq> []"
    by (simp add: players_while_calculating_def)
  then have "s_players s = [] \<longrightarrow> s_lotteryState s = OPEN"
    by (cases "s_lotteryState s") simp_all
  with inv show ?thesis
    by (auto simp: fulfill_division_panic_iff)
qed

theorem calculating_has_players_witness:
  "drawing = run (constructor_Lottery 0 99 10 5 1 500000 30)
     [(1, EnterLottery 11 10), (2, EnterLottery 12 10), (3, EnterLottery 13 10),
      (4, EnterLottery 14 10), (31, PerformUpkeep (Returns []) 1)] \<and>
   s_lotteryState drawing = CALCULATING \<and>
   s_players drawing \<noteq> [] \<and>
   fst (fulfillRandomWords 40 (Returns []) 1 [42] drawing) \<noteq>
     Inl (Panic PANIC_DIVISION_BY_ZERO) \<and>
   s_players settled = [] \<and> s_lotteryState settled = OPEN \<and>
   fst (fulfillRandomWords 41 (Returns []) 1 [42] settled) =
     Inl (Panic PANIC_DIVISION_BY_ZERO)"
proof -
  have b: "s_lotteryState drawing = CALCULATING"
    by (simp add: drawing_eq)
  have c: "[42::nat] \<noteq> [] \<and> s_players settled = [] \<and> s_lotteryState settled = OPEN"
    by (simp add: settled_eq)
  from calculating_has_players [OF drawing_reached] b
  have "s_players drawing \<noteq> [] \<and>
        fst (fulfillRandomWords 40 (Returns []) 1 [42] drawing) \<noteq>
          Inl (Panic PANIC_DIVISION_BY_ZERO)"
    by blast
  moreover from calculating_has_players [OF settled_reached] c
  have "fst (fulfillRandomWords 41 (Returns []) 1 [42] settled) =
     Inl (Panic PANIC_DIVISION_BY_ZERO)"
    by blast
  ultimately show ?thesis
    using b c drawing_reached by blast
qed

subsection \<open>Independence of the request identifier\<close>

text \<open>
  C9. From the same state, at the same time, with the same random words and the same
  behaviour of the winner's code, two calls of \<open>fulfillRandomWords\<close> with different
  request identifiers have the same result, the same storage afterwards and the same
  effects.
\<close>

theorem fulfill_ignores_requestId:
  "fulfillRandomWords t c r1 ws s = fulfillRandomWords t c r2 ws s \<and>
   transact s (fulfillRandomWords t c r1 ws s) = transact s (fulfillRandomWords t c r2 ws s)"
  by (simp add: fulfillRandomWords.simps)

subsection \<open>What entering changes\<close>

text \<open>
  C10. When \<open>enterLottery\<close> returns, the sender is appended at the end of the player
  list and the balance has grown by the value sent; the state, the last timestamp, the
  recent winner, the entrance fee, the interval and everything else are unchanged. There
  is no stored request identifier to change.
\<close>

theorem enterLottery_frame:
  assumes "transact s (enterLottery msg_sender msg_value s) = (Inr (), s', log)"
  shows "s_players s' = s_players s @ [msg_sender] \<and>
         balance s' = balance s + msg_value \<and>
         s_lotteryState s' = s_lotteryState s \<and>
         s_lastTimestamp s' = s_lastTimestamp s \<and>
         s_recentWinner s' = s_recentWinner s \<and>
         i_entranceFee s' = i_entranceFee s \<and>
         i_interval s' = i_interval s \<and>
         s' = s\<lparr>balance := balance s + msg_value, s_players := s_players s @ [msg_sender]\<rparr>"
proof -
  note r = enterLottery_returned [OF assms]
  show ?thesis
    by (simp add: r(3))
qed

theorem enterLottery_frame_witness:
  "transact four_entered (enterLottery 15 12 four_entered) =
     (Inr (), five_entered, [Emit (LotteryEnter 15)]) \<and>
   s_players five_entered = [11, 12, 13, 14, 15] \<and> balance five_entered = 52 \<and>
   s_players four_entered = [11, 12, 13, 14] \<and> balance four_entered = 40 \<and>
   s_lotteryState five_entered = s_lotteryState four_entered \<and>
   s_lastTimestamp five_entered = s_lastTimestamp four_entered \<and>
   s_recentWinner five_entered = s_recentWinner four_entered"
proof -
  have "s_players four_entered = [11, 12, 13, 14] \<and> balance four_entered = 40"
    by (simp add: four_entered_eq)
  with enterLottery_frame [OF four_entered_enter] four_entered_enter
  show ?thesis
    by simp
qed

end
